theory Spec2Isabelle
  imports Main "HOL-Library.Finite_Map" "HOL-Library.Multiset"
begin

section \<open>Data model\<close>

text \<open>
  A stored timestamp: the columns are \<open>DateTime\<close> without time zone, so what the database
  holds and returns is a naive \<open>datetime\<close>, a point on a linear time axis. The code only
  compares and copies timestamps, so an integer (say, microseconds since the epoch) stands
  for it.
\<close>

type_synonym datetime = int

text \<open>
  A timestamp of a request body. The schema declares the fields as \<open>datetime\<close>, and a
  string with a UTC offset or a \<open>Z\<close> validates to a timezone-aware value, one without to a
  naive value. Python refuses to order an aware value against a naive one (\<open>TypeError\<close>),
  and the database driver refuses an aware value as a parameter of a column or a comparison
  \<open>TIMESTAMP WITHOUT TIME ZONE\<close>.
\<close>

datatype pydatetime = Naive datetime | Aware datetime

fun instant :: "pydatetime \<Rightarrow> datetime" where
  "instant (Naive t) = t"
| "instant (Aware t) = t"

fun tz_aware :: "pydatetime \<Rightarrow> bool" where
  "tz_aware (Naive t) = False"
| "tz_aware (Aware t) = True"

text \<open>
  \<open>models/note.py\<close>: the columns of table \<open>notes\<close>. \<open>id\<close> alone is the primary key;
  \<open>folder_id\<close> is a foreign key to \<open>folders.id\<close>; \<open>id\<close> and \<open>folder_id\<close> are \<open>String(36)\<close>,
  \<open>title\<close> and \<open>audio_path\<close> are \<open>String(500)\<close>, \<open>content\<close> is \<open>Text\<close>.
\<close>

record Note =
  n_id :: string
  n_user_id :: string
  n_folder_id :: "string option"
  n_title :: string
  n_content :: string
  n_audio_path :: "string option"
  n_date :: datetime
  n_created_at :: datetime
  n_updated_at :: datetime
  n_synced_at :: "datetime option"
  n_is_deleted :: bool

text \<open>
  \<open>models/folder.py\<close>: the columns of table \<open>folders\<close>; there is no \<open>synced_at\<close> column.
  \<open>id\<close> is \<open>String(36)\<close>, \<open>name\<close> is \<open>String(255)\<close>, \<open>color\<close> is \<open>String(20)\<close>.
\<close>

record Folder =
  f_id :: string
  f_user_id :: string
  f_name :: string
  f_color :: string
  f_created_at :: datetime
  f_updated_at :: datetime
  f_is_deleted :: bool

text \<open>\<open>schemas/note.py\<close>, \<open>NoteSyncItem\<close>: a validated client batch entry.\<close>

record NoteSyncItem =
  ns_id :: string
  ns_title :: string
  ns_content :: string
  ns_folder_id :: "string option"
  ns_audio_path :: "string option"
  ns_date :: pydatetime
  ns_updated_at :: pydatetime
  ns_is_deleted :: bool

text \<open>\<open>schemas/folder.py\<close>, \<open>FolderSyncItem\<close>.\<close>

record FolderSyncItem =
  fs_id :: string
  fs_name :: string
  fs_color :: string
  fs_updated_at :: pydatetime
  fs_is_deleted :: bool

text \<open>
  The arguments of one \<open>background_tasks.add_task(rag_service.sync_diary_to_vector_db, ...)\<close>.
\<close>

record index_task =
  t_note_id :: string
  t_text :: string
  t_user_id :: string
  t_title :: string

text \<open>
  The exceptions that leave the modelled handlers. \<open>IntegrityError\<close>: the database refuses
  a row that violates the primary key or the foreign key \<open>notes.folder_id\<close>. \<open>DBAPIError\<close>:
  the driver or the database refuses a value, because a string is longer than its column
  or a timestamp is timezone-aware. \<open>TypeError\<close>: Python refuses to compare an aware
  timestamp with a naive one. \<open>RequestValidationError\<close>: the schema rejects the request
  body. \<open>NotFound\<close>: the 404 of the folder handlers.
\<close>

datatype error = IntegrityError | DBAPIError | TypeError | RequestValidationError | NotFound

text \<open>
  The server state. A table is a finite map from the primary key \<open>id\<close> to the row, so a
  table never holds two rows with one id, whoever owns them. \<open>files\<close> is the set of paths
  for which \<open>os.path.exists\<close> holds.
\<close>

record store =
  note_tbl :: "(string, Note) fmap"
  folder_tbl :: "(string, Folder) fmap"
  files :: "string set"

text \<open>
  What a call reads from outside the store: \<open>sync_time\<close> is the \<open>datetime.utcnow()\<close> at the
  start of a pass, \<open>insert_time i\<close> the clock read by the column default of \<open>created_at\<close>
  when the row with id \<open>i\<close> is inserted, and \<open>remove_raises p\<close> tells whether \<open>os.remove(p)\<close>
  raises \<open>OSError\<close> on an existing path.
\<close>

record env =
  sync_time :: datetime
  insert_time :: "string \<Rightarrow> datetime"
  remove_raises :: "string \<Rightarrow> bool"

section \<open>Record store access\<close>

text \<open>
  \<open>select(Note).where(Note.id == i, Note.user_id == u)\<close> with \<open>scalar_one_or_none()\<close>:
  the row with primary key \<open>i\<close>, if \<open>u\<close> owns it.
\<close>

definition select_note :: "(string, Note) fmap \<Rightarrow> string \<Rightarrow> string \<Rightarrow> Note option" where
  "select_note tbl i u =
     (case fmlookup tbl i of
        None \<Rightarrow> None
      | Some n \<Rightarrow> if n_user_id n = u then Some n else None)"

definition select_folder :: "(string, Folder) fmap \<Rightarrow> string \<Rightarrow> string \<Rightarrow> Folder option" where
  "select_folder tbl i u =
     (case fmlookup tbl i of
        None \<Rightarrow> None
      | Some f \<Rightarrow> if f_user_id f = u then Some f else None)"

text \<open>
  What the database checks when a row is written. A string fits a column \<open>String(n)\<close>
  when it has at most \<open>n\<close> characters; a longer one is refused, not truncated. (A string of
  the model is a sequence of characters that the database can store.)
\<close>

definition varchar :: "nat \<Rightarrow> string \<Rightarrow> bool" where
  "varchar n s = (length s \<le> n)"

definition varchar_opt :: "nat \<Rightarrow> string option \<Rightarrow> bool" where
  "varchar_opt n x = (case x of None \<Rightarrow> True | Some s \<Rightarrow> varchar n s)"

text \<open>
  \<open>ForeignKey("folders.id")\<close> on \<open>notes.folder_id\<close>: a non-null reference must be the primary
  key of a row of \<open>folders\<close>, whoever owns that folder and deleted or not.
\<close>

definition folder_exists :: "(string, Folder) fmap \<Rightarrow> string option \<Rightarrow> bool" where
  "folder_exists ftbl x = (case x of None \<Rightarrow> True | Some f \<Rightarrow> f |\<in>| fmdom ftbl)"

text \<open>
  The values of a row of \<open>notes\<close> that come from a client entry: the two timestamps of the
  entry are bound as they are, the strings are those of the row.
\<close>

definition note_values_fit :: "NoteSyncItem \<Rightarrow> Note \<Rightarrow> bool" where
  "note_values_fit client_note n =
     (\<not> tz_aware (ns_date client_note) \<and> \<not> tz_aware (ns_updated_at client_note)
      \<and> varchar_opt 36 (n_folder_id n) \<and> varchar 500 (n_title n)
      \<and> varchar_opt 500 (n_audio_path n))"

definition folder_values_fit :: "FolderSyncItem \<Rightarrow> Folder \<Rightarrow> bool" where
  "folder_values_fit client_folder f =
     (\<not> tz_aware (fs_updated_at client_folder) \<and> varchar 255 (f_name f) \<and> varchar 20 (f_color f))"

text \<open>
  \<open>self.db.add(row)\<close> and the assignments to a loaded row. The INSERT or UPDATE is emitted
  by the flush that precedes the next query of the session, or by \<open>self.db.flush()\<close> after
  the loop, whichever comes first; no statement of the loop except the removal of a media
  file lies in between, so the model writes the row at the end of the entry that changed
  it. The statement raises when a value does not fit (checked first, when the parameters
  are bound and the row is formed), when the id of an inserted row is already a primary
  key of the table, under any owner, or when \<open>folder_id\<close> names no folder. \<open>user_id\<close> is the
  id of the authenticated user, a row of \<open>users\<close>.
\<close>

definition add_note :: "store \<Rightarrow> NoteSyncItem \<Rightarrow> Note \<Rightarrow> error + (string, Note) fmap" where
  "add_note st client_note n =
     (if \<not> varchar 36 (n_id n) \<or> \<not> note_values_fit client_note n then Inl DBAPIError
      else if n_id n |\<in>| fmdom (note_tbl st) \<or> \<not> folder_exists (folder_tbl st) (n_folder_id n)
      then Inl IntegrityError
      else Inr (fmupd (n_id n) n (note_tbl st)))"

definition update_note :: "store \<Rightarrow> NoteSyncItem \<Rightarrow> Note \<Rightarrow> error + (string, Note) fmap" where
  "update_note st client_note n =
     (if \<not> note_values_fit client_note n then Inl DBAPIError
      else if \<not> folder_exists (folder_tbl st) (n_folder_id n) then Inl IntegrityError
      else Inr (fmupd (ns_id client_note) n (note_tbl st)))"

definition add_folder :: "store \<Rightarrow> FolderSyncItem \<Rightarrow> Folder \<Rightarrow> error + (string, Folder) fmap" where
  "add_folder st client_folder f =
     (if \<not> varchar 36 (f_id f) \<or> \<not> folder_values_fit client_folder f then Inl DBAPIError
      else if f_id f |\<in>| fmdom (folder_tbl st) then Inl IntegrityError
      else Inr (fmupd (f_id f) f (folder_tbl st)))"

definition update_folder :: "store \<Rightarrow> FolderSyncItem \<Rightarrow> Folder \<Rightarrow> error + (string, Folder) fmap" where
  "update_folder st client_folder f =
     (if \<not> folder_values_fit client_folder f then Inl DBAPIError
      else Inr (fmupd (fs_id client_folder) f (folder_tbl st)))"

section \<open>\<open>SyncService.sync_notes\<close>\<close>

text \<open>Lines 65-72: every mutable column is overwritten from the client entry.\<close>

definition overwrite_note :: "env \<Rightarrow> Note \<Rightarrow> NoteSyncItem \<Rightarrow> Note" where
  "overwrite_note e existing_note client_note =
     existing_note\<lparr>
       n_title := ns_title client_note,
       n_content := ns_content client_note,
       n_folder_id := ns_folder_id client_note,
       n_audio_path := ns_audio_path client_note,
       n_date := instant (ns_date client_note),
       n_is_deleted := ns_is_deleted client_note,
       n_updated_at := instant (ns_updated_at client_note),
       n_synced_at := Some (sync_time e)\<rparr>"

text \<open>
  Lines 76-81: the media file of a note that the sync marks as deleted. The path is
  truthy when it is neither \<open>None\<close> nor the empty string.
\<close>

definition remove_media :: "env \<Rightarrow> string set \<Rightarrow> Note \<Rightarrow> string set \<times> Note" where
  "remove_media e fs existing_note =
     (case n_audio_path existing_note of
        None \<Rightarrow> (fs, existing_note)
      | Some p \<Rightarrow>
          if p \<noteq> [] \<and> p \<in> fs then
            (if remove_raises e p then (fs, existing_note)
             else (fs - {p}, existing_note\<lparr>n_audio_path := None\<rparr>))
          else (fs, existing_note))"

text \<open>Lines 89-100: the row built for an id the owner does not have yet.\<close>

definition new_note :: "env \<Rightarrow> string \<Rightarrow> NoteSyncItem \<Rightarrow> Note" where
  "new_note e u client_note =
     \<lparr>n_id = ns_id client_note,
      n_user_id = u,
      n_folder_id = ns_folder_id client_note,
      n_title = ns_title client_note,
      n_content = ns_content client_note,
      n_audio_path = ns_audio_path client_note,
      n_date = instant (ns_date client_note),
      n_created_at = insert_time e (ns_id client_note),
      n_updated_at = instant (ns_updated_at client_note),
      n_synced_at = Some (sync_time e),
      n_is_deleted = ns_is_deleted client_note\<rparr>"

text \<open>Lines 75-81 with their guard, line 75.\<close>

definition after_media :: "env \<Rightarrow> string set \<Rightarrow> NoteSyncItem \<Rightarrow> Note \<Rightarrow> string set \<times> Note" where
  "after_media e fs client_note existing_note =
     (if ns_is_deleted client_note then remove_media e fs existing_note
      else (fs, existing_note))"

text \<open>
  Lines 65-85, for an entry that is newer than the record \<open>existing_note\<close> of the owner:
  the row is overwritten, the media file of a deletion is removed, and the UPDATE is
  flushed. When the UPDATE raises, the file is already removed: the error comes with the
  files that are left.
\<close>

definition apply_update ::
  "env \<Rightarrow> NoteSyncItem \<Rightarrow> Note \<Rightarrow> store \<Rightarrow> (error \<times> string set) + (store \<times> string list)" where
  "apply_update e client_note existing_note st =
     (let (fs, n2) = after_media e (files st) client_note
                       (overwrite_note e existing_note client_note)
      in case update_note st client_note n2 of
           Inl err \<Rightarrow> Inl (err, fs)
         | Inr tbl \<Rightarrow>
             Inr (st\<lparr>note_tbl := tbl, files := fs\<rparr>,
                  if \<not> ns_is_deleted client_note
                     \<and> (ns_content client_note \<noteq> [] \<or> ns_title client_note \<noteq> [])
                  then [ns_id client_note] else []))"

text \<open>Lines 88-103, for an entry with \<open>is_deleted\<close> false whose id the owner does not have.\<close>

definition create_note ::
  "env \<Rightarrow> string \<Rightarrow> NoteSyncItem \<Rightarrow> store \<Rightarrow> (error \<times> string set) + (store \<times> string list)" where
  "create_note e u client_note st =
     (let n = new_note e u client_note in
      case add_note st client_note n of
        Inl err \<Rightarrow> Inl (err, files st)
      | Inr tbl \<Rightarrow>
          Inr (st\<lparr>note_tbl := tbl\<rparr>,
               if n_content n \<noteq> [] \<or> n_title n \<noteq> [] then [n_id n] else []))"

text \<open>
  The body of the loop of lines 52-103 for one client entry. The result is the store as
  the session sees it after the entry, and the references that the entry appends to
  \<open>notes_to_index\<close> (a reference to a row is its primary key); or the exception that the
  entry raises, with the files that exist at that point. The comparison of line 64 has a
  naive stored value on its right: an aware client value makes it raise.
\<close>

definition sync_note_step ::
  "env \<Rightarrow> string \<Rightarrow> NoteSyncItem \<Rightarrow> store \<Rightarrow> (error \<times> string set) + (store \<times> string list)" where
  "sync_note_step e u client_note st =
     (case select_note (note_tbl st) (ns_id client_note) u of
        Some existing_note \<Rightarrow>
          (case ns_updated_at client_note of
             Aware t \<Rightarrow> Inl (TypeError, files st)
           | Naive t \<Rightarrow>
               if t > n_updated_at existing_note
               then apply_update e client_note existing_note st
               else Inr (st, []))
      | None \<Rightarrow>
          if \<not> ns_is_deleted client_note then create_note e u client_note st
          else Inr (st, []))"

text \<open>
  The loop itself. When an entry raises, the loop stops; the store returned with the
  error is the session's view at that point (its rows are not committed).
\<close>

fun process_notes ::
  "env \<Rightarrow> string \<Rightarrow> NoteSyncItem list \<Rightarrow> store \<Rightarrow> string list \<Rightarrow> store \<times> (error + string list)" where
  "process_notes e u [] st notes_to_index = (st, Inr notes_to_index)"
| "process_notes e u (client_note # rest) st notes_to_index =
     (case sync_note_step e u client_note st of
        Inl (err, fs) \<Rightarrow> (st\<lparr>files := fs\<rparr>, Inl err)
      | Inr (st', q) \<Rightarrow> process_notes e u rest st' (notes_to_index @ q))"

text \<open>
  Lines 108-117: the indexing tasks. Each reference is read when the tasks are queued,
  after the loop, so it shows the row as the whole batch left it.
\<close>

definition index_task_of :: "string \<Rightarrow> (string, Note) fmap \<Rightarrow> string \<Rightarrow> index_task list" where
  "index_task_of u tbl r =
     (case fmlookup tbl r of
        None \<Rightarrow> []
      | Some n \<Rightarrow>
          if n_content n \<noteq> [] then
            [\<lparr>t_note_id = n_id n, t_text = n_content n, t_user_id = u,
              t_title = (if n_title n \<noteq> [] then n_title n else ''Untitled'')\<rparr>]
          else [])"

definition index_tasks :: "bool \<Rightarrow> string \<Rightarrow> (string, Note) fmap \<Rightarrow> string list \<Rightarrow> index_task list" where
  "index_tasks background_tasks u tbl notes_to_index =
     (if background_tasks \<and> notes_to_index \<noteq> []
      then concat (map (index_task_of u tbl) notes_to_index) else [])"

text \<open>
  Lines 120-132: the rows of the owner that changed since the checkpoint. A NULL
  \<open>synced_at\<close> compares as unknown, which the WHERE clause treats as false. The query
  has no ORDER BY: the result is the set of rows.
\<close>

definition note_changed_since :: "datetime option \<Rightarrow> Note \<Rightarrow> bool" where
  "note_changed_since last_sync_at n =
     (case last_sync_at of
        None \<Rightarrow> True
      | Some t \<Rightarrow>
          n_updated_at n > t \<or> (case n_synced_at n of None \<Rightarrow> False | Some s \<Rightarrow> s > t))"

definition server_notes :: "(string, Note) fmap \<Rightarrow> string \<Rightarrow> datetime option \<Rightarrow> Note fset" where
  "server_notes tbl u last_sync_at =
     ffilter (\<lambda>n. n_user_id n = u \<and> note_changed_since last_sync_at n) (fmran tbl)"

text \<open>
  The checkpoint of a request is a parameter of the query of lines 120-131 (and 188-193):
  an aware one makes the query raise.
\<close>

definition checkpoint_aware :: "pydatetime option \<Rightarrow> bool" where
  "checkpoint_aware last_sync_at = (case last_sync_at of None \<Rightarrow> False | Some t \<Rightarrow> tz_aware t)"

text \<open>
  \<open>sync_notes\<close>. \<open>background_tasks\<close> tells whether a task queue was passed. When the pass
  raises, in the loop or at the query for the delta, nothing is committed: the tables are
  those of the start, while files already removed stay removed.
\<close>

definition sync_notes ::
  "env \<Rightarrow> string \<Rightarrow> NoteSyncItem list \<Rightarrow> pydatetime option \<Rightarrow> bool \<Rightarrow> store
     \<Rightarrow> store \<times> (error + Note fset \<times> index_task list)" where
  "sync_notes e u client_notes last_sync_at background_tasks st =
     (case process_notes e u client_notes st [] of
        (st', Inl err) \<Rightarrow> (st\<lparr>files := files st'\<rparr>, Inl err)
      | (st', Inr notes_to_index) \<Rightarrow>
          if checkpoint_aware last_sync_at then (st\<lparr>files := files st'\<rparr>, Inl DBAPIError)
          else
            (st', Inr (server_notes (note_tbl st') u (map_option instant last_sync_at),
                       index_tasks background_tasks u (note_tbl st') notes_to_index)))"

section \<open>\<open>SyncService.sync_folders\<close>\<close>

definition overwrite_folder :: "Folder \<Rightarrow> FolderSyncItem \<Rightarrow> Folder" where
  "overwrite_folder existing_folder client_folder =
     existing_folder\<lparr>
       f_name := fs_name client_folder,
       f_color := fs_color client_folder,
       f_is_deleted := fs_is_deleted client_folder,
       f_updated_at := instant (fs_updated_at client_folder)\<rparr>"

definition new_folder :: "env \<Rightarrow> string \<Rightarrow> FolderSyncItem \<Rightarrow> Folder" where
  "new_folder e u client_folder =
     \<lparr>f_id = fs_id client_folder,
      f_user_id = u,
      f_name = fs_name client_folder,
      f_color = fs_color client_folder,
      f_created_at = insert_time e (fs_id client_folder),
      f_updated_at = instant (fs_updated_at client_folder),
      f_is_deleted = fs_is_deleted client_folder\<rparr>"

text \<open>
  The body of the loop of lines 158-183, with the flush of the row that the entry wrote.
\<close>

definition sync_folder_step :: "env \<Rightarrow> string \<Rightarrow> FolderSyncItem \<Rightarrow> store \<Rightarrow> error + store" where
  "sync_folder_step e u client_folder st =
     (case select_folder (folder_tbl st) (fs_id client_folder) u of
        Some existing_folder \<Rightarrow>
          (case fs_updated_at client_folder of
             Aware t \<Rightarrow> Inl TypeError
           | Naive t \<Rightarrow>
               if t > f_updated_at existing_folder then
                 (case update_folder st client_folder
                         (overwrite_folder existing_folder client_folder) of
                    Inl err \<Rightarrow> Inl err
                  | Inr tbl \<Rightarrow> Inr (st\<lparr>folder_tbl := tbl\<rparr>))
               else Inr st)
      | None \<Rightarrow>
          if \<not> fs_is_deleted client_folder then
            (case add_folder st client_folder (new_folder e u client_folder) of
               Inl err \<Rightarrow> Inl err
             | Inr tbl \<Rightarrow> Inr (st\<lparr>folder_tbl := tbl\<rparr>))
          else Inr st)"

fun process_folders :: "env \<Rightarrow> string \<Rightarrow> FolderSyncItem list \<Rightarrow> store \<Rightarrow> error + store" where
  "process_folders e u [] st = Inr st"
| "process_folders e u (client_folder # rest) st =
     (case sync_folder_step e u client_folder st of
        Inl err \<Rightarrow> Inl err
      | Inr st' \<Rightarrow> process_folders e u rest st')"

text \<open>Lines 188-194: only \<open>updated_at\<close> is compared with the checkpoint.\<close>

definition folder_changed_since :: "datetime option \<Rightarrow> Folder \<Rightarrow> bool" where
  "folder_changed_since last_sync_at f =
     (case last_sync_at of None \<Rightarrow> True | Some t \<Rightarrow> f_updated_at f > t)"

definition server_folders :: "(string, Folder) fmap \<Rightarrow> string \<Rightarrow> datetime option \<Rightarrow> Folder fset" where
  "server_folders tbl u last_sync_at =
     ffilter (\<lambda>f. f_user_id f = u \<and> folder_changed_since last_sync_at f) (fmran tbl)"

text \<open>\<open>sync_folders\<close>. When the pass raises, nothing is committed.\<close>

definition sync_folders ::
  "env \<Rightarrow> string \<Rightarrow> FolderSyncItem list \<Rightarrow> pydatetime option \<Rightarrow> store
     \<Rightarrow> store \<times> (error + Folder fset)" where
  "sync_folders e u client_folders last_sync_at st =
     (case process_folders e u client_folders st of
        Inl err \<Rightarrow> (st, Inl err)
      | Inr st' \<Rightarrow>
          if checkpoint_aware last_sync_at then (st, Inl DBAPIError)
          else (st', Inr (server_folders (folder_tbl st') u (map_option instant last_sync_at))))"

section \<open>The sync endpoint\<close>

text \<open>
  The JSON body of \<open>POST /sync\<close> before validation: a field is \<open>None\<close> when the key is
  absent from the object (for the nullable fields, also when it is null).
\<close>

record raw_note_item =
  rn_id :: "string option"
  rn_title :: "string option"
  rn_content :: "string option"
  rn_folder_id :: "string option"
  rn_audio_path :: "string option"
  rn_date :: "pydatetime option"
  rn_updated_at :: "pydatetime option"
  rn_is_deleted :: "bool option"

record raw_folder_item =
  rf_id :: "string option"
  rf_name :: "string option"
  rf_color :: "string option"
  rf_updated_at :: "pydatetime option"
  rf_is_deleted :: "bool option"

record raw_sync_request =
  raw_notes :: "raw_note_item list"
  raw_folders :: "raw_folder_item list"
  raw_last_sync_at :: "pydatetime option"

record SyncRequest =
  req_notes :: "NoteSyncItem list"
  req_folders :: "FolderSyncItem list"
  req_last_sync_at :: "pydatetime option"

record SyncResponse =
  resp_notes :: "Note fset"
  resp_folders :: "Folder fset"
  sync_timestamp :: datetime

text \<open>
  \<open>NoteSyncItem\<close>: \<open>id\<close>, \<open>date\<close> and \<open>updated_at\<close> have no default and are required; the
  other fields take their declared default when absent.
\<close>

definition validate_note_item :: "raw_note_item \<Rightarrow> error + NoteSyncItem" where
  "validate_note_item r =
     (case (rn_id r, rn_date r, rn_updated_at r) of
        (Some i, Some d, Some t) \<Rightarrow>
          Inr \<lparr>ns_id = i,
               ns_title = (case rn_title r of None \<Rightarrow> [] | Some x \<Rightarrow> x),
               ns_content = (case rn_content r of None \<Rightarrow> [] | Some x \<Rightarrow> x),
               ns_folder_id = rn_folder_id r,
               ns_audio_path = rn_audio_path r,
               ns_date = d,
               ns_updated_at = t,
               ns_is_deleted = (case rn_is_deleted r of None \<Rightarrow> False | Some b \<Rightarrow> b)\<rparr>
      | _ \<Rightarrow> Inl RequestValidationError)"

text \<open>\<open>FolderSyncItem\<close>: \<open>id\<close>, \<open>name\<close> and \<open>updated_at\<close> are required.\<close>

definition validate_folder_item :: "raw_folder_item \<Rightarrow> error + FolderSyncItem" where
  "validate_folder_item r =
     (case (rf_id r, rf_name r, rf_updated_at r) of
        (Some i, Some nm, Some t) \<Rightarrow>
          Inr \<lparr>fs_id = i,
               fs_name = nm,
               fs_color = (case rf_color r of None \<Rightarrow> ''#E8B731'' | Some x \<Rightarrow> x),
               fs_updated_at = t,
               fs_is_deleted = (case rf_is_deleted r of None \<Rightarrow> False | Some b \<Rightarrow> b)\<rparr>
      | _ \<Rightarrow> Inl RequestValidationError)"

text \<open>A list field of the body is valid when each of its items is.\<close>

fun validate_items :: "('a \<Rightarrow> error + 'b) \<Rightarrow> 'a list \<Rightarrow> error + 'b list" where
  "validate_items v [] = Inr []"
| "validate_items v (r # rs) =
     (case v r of
        Inl err \<Rightarrow> Inl err
      | Inr x \<Rightarrow> (case validate_items v rs of Inl err \<Rightarrow> Inl err | Inr xs \<Rightarrow> Inr (x # xs)))"

definition validate_sync_request :: "raw_sync_request \<Rightarrow> error + SyncRequest" where
  "validate_sync_request raw =
     (case validate_items validate_note_item (raw_notes raw) of
        Inl err \<Rightarrow> Inl err
      | Inr ns \<Rightarrow>
          (case validate_items validate_folder_item (raw_folders raw) of
             Inl err \<Rightarrow> Inl err
           | Inr fs \<Rightarrow>
               Inr \<lparr>req_notes = ns, req_folders = fs, req_last_sync_at = raw_last_sync_at raw\<rparr>))"

text \<open>
  \<open>routers/sync.py\<close>, the body of \<open>sync_data\<close>: one pass for the notes, then one for the
  folders, each with its own clock reading and its own commit, then the response stamped
  with \<open>ts\<close>. The indexing tasks run after the response.
\<close>

definition sync_data ::
  "env \<Rightarrow> env \<Rightarrow> datetime \<Rightarrow> string \<Rightarrow> SyncRequest \<Rightarrow> store
     \<Rightarrow> store \<times> (error + SyncResponse \<times> index_task list)" where
  "sync_data e_notes e_folders ts current_user sync_request st =
     (case sync_notes e_notes current_user (req_notes sync_request)
             (req_last_sync_at sync_request) True st of
        (st1, Inl err) \<Rightarrow> (st1, Inl err)
      | (st1, Inr (synced_notes, tasks)) \<Rightarrow>
          (case sync_folders e_folders current_user (req_folders sync_request)
                  (req_last_sync_at sync_request) st1 of
             (st2, Inl err) \<Rightarrow> (st2, Inl err)
           | (st2, Inr synced_folders) \<Rightarrow>
               (st2, Inr (\<lparr>resp_notes = synced_notes, resp_folders = synced_folders,
                           sync_timestamp = ts\<rparr>, tasks))))"

text \<open>
  The route \<open>POST /sync\<close>: the parameter \<open>sync_request: SyncRequest\<close> makes the framework
  validate the whole body before the handler is called, and answer with the validation
  error instead of calling it when the body does not validate.
\<close>

definition post_sync ::
  "env \<Rightarrow> env \<Rightarrow> datetime \<Rightarrow> string \<Rightarrow> raw_sync_request \<Rightarrow> store
     \<Rightarrow> store \<times> (error + SyncResponse \<times> index_task list)" where
  "post_sync e_notes e_folders ts current_user body st =
     (case validate_sync_request body of
        Inl err \<Rightarrow> (st, Inl err)
      | Inr sync_request \<Rightarrow> sync_data e_notes e_folders ts current_user sync_request st)"

section \<open>\<open>routers/folders.py\<close>: \<open>delete_folder\<close>\<close>

text \<open>
  Lines 156-164: the notes of the owner that point to the folder are moved to no folder.
  The UPDATE of such a row does not set \<open>updated_at\<close>, so the column's \<open>onupdate\<close> stamps it
  with the clock read when the row is flushed, \<open>onupdate_time i\<close> for the row with id \<open>i\<close>.
\<close>

definition uncategorize :: "(string \<Rightarrow> datetime) \<Rightarrow> string \<Rightarrow> string \<Rightarrow> Note \<Rightarrow> Note" where
  "uncategorize onupdate_time folder_id u n =
     (if n_folder_id n = Some folder_id \<and> n_user_id n = u
      then n\<lparr>n_folder_id := None, n_updated_at := onupdate_time (n_id n)\<rparr> else n)"

text \<open>
  \<open>db.delete(folder)\<close>, line 167. The relationship \<open>Folder.notes\<close> is declared without a
  cascade, so when the folder is deleted the session loads every note whose \<open>folder_id\<close>
  is the folder's id, whoever owns it, and sets its \<open>folder_id\<close> to null (an UPDATE, which
  stamps \<open>updated_at\<close>), before it deletes the row of the folder.
\<close>

definition detach :: "(string \<Rightarrow> datetime) \<Rightarrow> string \<Rightarrow> Note \<Rightarrow> Note" where
  "detach onupdate_time folder_id n =
     (if n_folder_id n = Some folder_id
      then n\<lparr>n_folder_id := None, n_updated_at := onupdate_time (n_id n)\<rparr> else n)"


section \<open>Example stores and batches\<close>

text \<open>Concrete inputs on which the theorems below are instantiated.\<close>

definition ex_env :: env where
  "ex_env = \<lparr>sync_time = 20, insert_time = (\<lambda>i. 21), remove_raises = (\<lambda>p. False)\<rparr>"

definition ex_note :: Note where
  "ex_note = \<lparr>n_id = ''n1'', n_user_id = ''u'', n_folder_id = Some ''f1'', n_title = ''old'',
     n_content = ''text'', n_audio_path = Some ''a.wav'', n_date = 1, n_created_at = 1,
     n_updated_at = 1, n_synced_at = Some 1, n_is_deleted = False\<rparr>"

definition ex_folder :: Folder where
  "ex_folder = \<lparr>f_id = ''f1'', f_user_id = ''u'', f_name = ''Trip'', f_color = ''#E8B731'',
     f_created_at = 1, f_updated_at = 1, f_is_deleted = False\<rparr>"

definition ex_store :: store where
  "ex_store = \<lparr>note_tbl = fmupd ''n1'' ex_note fmempty,
     folder_tbl = fmupd ''f1'' ex_folder fmempty, files = {''a.wav''}\<rparr>"




definition empty_store :: store where
  "empty_store = \<lparr>note_tbl = fmempty, folder_tbl = fmempty, files = {}\<rparr>"

definition ex_tombstone_item :: NoteSyncItem where
  "ex_tombstone_item = \<lparr>ns_id = ''n7'', ns_title = ''gone'', ns_content = ''x'',
     ns_folder_id = None, ns_audio_path = None, ns_date = Naive 3, ns_updated_at = Naive 4,
     ns_is_deleted = True\<rparr>"

definition ex_tombstone_folder_item :: FolderSyncItem where
  "ex_tombstone_folder_item = \<lparr>fs_id = ''f7'', fs_name = ''gone'', fs_color = ''#000000'',
     fs_updated_at = Naive 4, fs_is_deleted = True\<rparr>"


definition ex_new_note_item :: NoteSyncItem where
  "ex_new_note_item = \<lparr>ns_id = ''n9'', ns_title = ''Trip'', ns_content = [],
     ns_folder_id = None, ns_audio_path = None, ns_date = Naive 5, ns_updated_at = Naive 5,
     ns_is_deleted = False\<rparr>"

definition ex_new_folder_item :: FolderSyncItem where
  "ex_new_folder_item = \<lparr>fs_id = ''f9'', fs_name = ''Trip'', fs_color = ''#E8B731'',
     fs_updated_at = Naive 5, fs_is_deleted = False\<rparr>"



definition ex_good_raw_note :: raw_note_item where
  "ex_good_raw_note = \<lparr>rn_id = Some ''n9'', rn_title = Some ''Trip'', rn_content = None,
     rn_folder_id = None, rn_audio_path = None, rn_date = Some (Naive 5), rn_updated_at = Some (Naive 5),
     rn_is_deleted = None\<rparr>"

definition ex_bad_raw_note :: raw_note_item where
  "ex_bad_raw_note = \<lparr>rn_id = Some ''n8'', rn_title = Some ''Broken'', rn_content = None,
     rn_folder_id = None, rn_audio_path = None, rn_date = Some (Naive 5), rn_updated_at = None,
     rn_is_deleted = None\<rparr>"

text \<open>
  The part of a table that a query with \<open>WHERE user_id = u\<close> can see, and the rest of it.
\<close>

definition owner_notes :: "string \<Rightarrow> (string, Note) fmap \<Rightarrow> (string, Note) fmap" where
  "owner_notes u tbl = fmfilter (\<lambda>i. select_note tbl i u \<noteq> None) tbl"


definition owner_folders :: "string \<Rightarrow> (string, Folder) fmap \<Rightarrow> (string, Folder) fmap" where
  "owner_folders u tbl = fmfilter (\<lambda>i. select_folder tbl i u \<noteq> None) tbl"



text \<open>
  An entry is settled in a table when processing it would change nothing: its id has a
  record of the owner that is at least as new, or it is a deletion of an id the owner
  does not have.
\<close>

definition note_settled :: "(string, Note) fmap \<Rightarrow> string \<Rightarrow> NoteSyncItem \<Rightarrow> bool" where
  "note_settled tbl u c =
     (case select_note tbl (ns_id c) u of
        None \<Rightarrow> ns_is_deleted c
      | Some x \<Rightarrow> \<not> tz_aware (ns_updated_at c) \<and> \<not> n_updated_at x < instant (ns_updated_at c))"



text \<open>
  An entry is accepted in a table when the loop body writes a row for it: it creates the
  record (no record of the owner under its id, \<open>is_deleted\<close> false) or overwrites it (the
  owner's record is strictly older).
\<close>

definition note_accepted :: "(string, Note) fmap \<Rightarrow> string \<Rightarrow> NoteSyncItem \<Rightarrow> bool" where
  "note_accepted tbl u c =
     (case select_note tbl (ns_id c) u of
        None \<Rightarrow> \<not> ns_is_deleted c
      | Some x \<Rightarrow> \<not> tz_aware (ns_updated_at c) \<and> n_updated_at x < instant (ns_updated_at c))"

text \<open>Every row is stored under its own \<open>id\<close>, the primary key.\<close>

definition keyed_by_id :: "(string, Note) fmap \<Rightarrow> bool" where
  "keyed_by_id tbl = (\<forall>i n. fmlookup tbl i = Some n \<longrightarrow> n_id n = i)"

definition ex_content_item :: NoteSyncItem where
  "ex_content_item = \<lparr>ns_id = ''n3'', ns_title = [], ns_content = ''body'',
     ns_folder_id = None, ns_audio_path = None, ns_date = Naive 5, ns_updated_at = Naive 5,
     ns_is_deleted = False\<rparr>"


text \<open>
  The attachment path that an accepted overwrite stores: null when the entry is a deletion
  whose media file exists and is removed, the client's path otherwise.
\<close>

definition stored_audio_path :: "env \<Rightarrow> string set \<Rightarrow> NoteSyncItem \<Rightarrow> string option" where
  "stored_audio_path e fs c =
     (case ns_audio_path c of
        None \<Rightarrow> None
      | Some p \<Rightarrow>
          if ns_is_deleted c \<and> p \<noteq> [] \<and> p \<in> fs \<and> \<not> remove_raises e p then None else Some p)"

text \<open>
  The entries that the database lets overwrite a record: the date is naive, the strings
  fit their columns, and the folder reference is null or names a row of \<open>folders\<close>.
\<close>

definition update_storable :: "env \<Rightarrow> store \<Rightarrow> NoteSyncItem \<Rightarrow> bool" where
  "update_storable e st c =
     (\<not> tz_aware (ns_date c) \<and> varchar 500 (ns_title c) \<and> varchar_opt 36 (ns_folder_id c)
      \<and> varchar_opt 500 (stored_audio_path e (files st) c)
      \<and> folder_exists (folder_tbl st) (ns_folder_id c))"

definition folder_storable :: "FolderSyncItem \<Rightarrow> bool" where
  "folder_storable c = (varchar 255 (fs_name c) \<and> varchar 20 (fs_color c))"





text \<open>
  The entries that the database lets create a record: both timestamps are naive, the
  strings fit their columns, the id is not yet a primary key of the table, and the folder
  reference is null or names a row of \<open>folders\<close>.
\<close>

definition create_storable :: "store \<Rightarrow> NoteSyncItem \<Rightarrow> bool" where
  "create_storable st c =
     (\<not> tz_aware (ns_date c) \<and> \<not> tz_aware (ns_updated_at c) \<and> varchar 36 (ns_id c)
      \<and> varchar 500 (ns_title c) \<and> varchar_opt 36 (ns_folder_id c)
      \<and> varchar_opt 500 (ns_audio_path c)
      \<and> ns_id c |\<notin>| fmdom (note_tbl st)
      \<and> folder_exists (folder_tbl st) (ns_folder_id c))"

definition folder_create_storable :: "store \<Rightarrow> FolderSyncItem \<Rightarrow> bool" where
  "folder_create_storable st c =
     (\<not> tz_aware (fs_updated_at c) \<and> varchar 36 (fs_id c) \<and> folder_storable c
      \<and> fs_id c |\<notin>| fmdom (folder_tbl st))"




text \<open>
  Two tables that hold the same ids, with the same owner and the same \<open>updated_at\<close> under
  each id: what the loop reads of a table before it decides what to do with an entry.
\<close>

definition same_versions :: "(string, Note) fmap \<Rightarrow> (string, Note) fmap \<Rightarrow> bool" where
  "same_versions t t' =
     (\<forall>i. rel_option (\<lambda>n n'. n_user_id n' = n_user_id n \<and> n_updated_at n' = n_updated_at n)
            (fmlookup t i) (fmlookup t' i))"

definition same_folder_versions :: "(string, Folder) fmap \<Rightarrow> (string, Folder) fmap \<Rightarrow> bool" where
  "same_folder_versions t t' =
     (\<forall>i. rel_option (\<lambda>f f'. f_user_id f' = f_user_id f \<and> f_updated_at f' = f_updated_at f)
            (fmlookup t i) (fmlookup t' i))"





section \<open>The loop body, case by case\<close>

lemma fmupd_same [simp]: "fmupd k v (fmupd k w m) = fmupd k v m"
  by (rule fmap_ext) simp

lemma after_media_snd:
  "snd (after_media e fs c (overwrite_note e x c))
     = (overwrite_note e x c)\<lparr>n_audio_path := stored_audio_path e fs c\<rparr>"
  by (auto simp: after_media_def remove_media_def stored_audio_path_def overwrite_note_def
      split: option.splits)

lemma update_note_eq:
  "update_note st c ((overwrite_note e x c)\<lparr>n_audio_path := stored_audio_path e (files st) c\<rparr>)
     = (if update_storable e st c \<and> \<not> tz_aware (ns_updated_at c)
        then Inr (fmupd (ns_id c)
               ((overwrite_note e x c)\<lparr>n_audio_path := stored_audio_path e (files st) c\<rparr>)
               (note_tbl st))
        else if \<not> tz_aware (ns_date c) \<and> \<not> tz_aware (ns_updated_at c)
                \<and> varchar 500 (ns_title c) \<and> varchar_opt 36 (ns_folder_id c)
                \<and> varchar_opt 500 (stored_audio_path e (files st) c)
        then Inl IntegrityError else Inl DBAPIError)"
  by (auto simp: update_note_def update_storable_def note_values_fit_def overwrite_note_def)

lemma apply_update_eq:
  "apply_update e c x st =
     (case update_note st c ((overwrite_note e x c)\<lparr>n_audio_path := stored_audio_path e (files st) c\<rparr>) of
        Inl err \<Rightarrow> Inl (err, fst (after_media e (files st) c (overwrite_note e x c)))
      | Inr tbl \<Rightarrow>
          Inr (st\<lparr>note_tbl := tbl, files := fst (after_media e (files st) c (overwrite_note e x c))\<rparr>,
               if \<not> ns_is_deleted c \<and> (ns_content c \<noteq> [] \<or> ns_title c \<noteq> [])
               then [ns_id c] else []))"
  by (simp add: apply_update_def case_prod_beta after_media_snd)

lemma sync_note_step_existing:
  assumes "select_note (note_tbl st) (ns_id c) u = Some x"
  shows "sync_note_step e u c st =
     (case ns_updated_at c of
        Aware t \<Rightarrow> Inl (TypeError, files st)
      | Naive t \<Rightarrow> if n_updated_at x < t then apply_update e c x st else Inr (st, []))"
  using assms by (simp add: sync_note_step_def split: pydatetime.splits)

lemma sync_note_step_absent:
  assumes "select_note (note_tbl st) (ns_id c) u = None"
  shows "sync_note_step e u c st =
     (if ns_is_deleted c then Inr (st, []) else create_note e u c st)"
  using assms by (simp add: sync_note_step_def)

lemma create_note_eq:
  "create_note e u c st =
     (if create_storable st c
      then Inr (st\<lparr>note_tbl := fmupd (ns_id c) (new_note e u c) (note_tbl st)\<rparr>,
                if ns_content c \<noteq> [] \<or> ns_title c \<noteq> [] then [ns_id c] else [])
      else if \<not> tz_aware (ns_date c) \<and> \<not> tz_aware (ns_updated_at c) \<and> varchar 36 (ns_id c)
              \<and> varchar 500 (ns_title c) \<and> varchar_opt 36 (ns_folder_id c)
              \<and> varchar_opt 500 (ns_audio_path c)
      then Inl (IntegrityError, files st) else Inl (DBAPIError, files st))"
  by (auto simp: create_note_def add_note_def create_storable_def note_values_fit_def
      new_note_def)

lemma sync_note_step_update:
  assumes "select_note (note_tbl st) (ns_id c) u = Some x"
    and "ns_updated_at c = Naive t" and "n_updated_at x < t"
  shows "sync_note_step e u c st =
     (if update_storable e st c
      then Inr (st\<lparr>note_tbl := fmupd (ns_id c)
                     ((overwrite_note e x c)\<lparr>n_audio_path := stored_audio_path e (files st) c\<rparr>)
                     (note_tbl st),
                   files := fst (after_media e (files st) c (overwrite_note e x c))\<rparr>,
                if \<not> ns_is_deleted c \<and> (ns_content c \<noteq> [] \<or> ns_title c \<noteq> [])
                then [ns_id c] else [])
      else if \<not> tz_aware (ns_date c) \<and> varchar 500 (ns_title c)
              \<and> varchar_opt 36 (ns_folder_id c)
              \<and> varchar_opt 500 (stored_audio_path e (files st) c)
      then Inl (IntegrityError, fst (after_media e (files st) c (overwrite_note e x c)))
      else Inl (DBAPIError, fst (after_media e (files st) c (overwrite_note e x c))))"
  using assms
  by (simp add: sync_note_step_existing apply_update_eq update_note_eq)


lemma stored_audio_path_not_deleted [simp]:
  "\<not> ns_is_deleted c \<Longrightarrow> stored_audio_path e fs c = ns_audio_path c"
  by (simp add: stored_audio_path_def split: option.splits)

lemma overwrite_note_audio [simp]:
  "(overwrite_note e x c)\<lparr>n_audio_path := ns_audio_path c\<rparr> = overwrite_note e x c"
  by (simp add: overwrite_note_def)

lemma after_media_not_deleted [simp]:
  "\<not> ns_is_deleted c \<Longrightarrow> after_media e fs c n = (fs, n)"
  by (simp add: after_media_def)

lemma sync_note_step_InrE:
  assumes "sync_note_step e u c st = Inr (st', q)"
  obtains (skip) "st' = st" "q = []" "note_settled (note_tbl st) u c"
  | (update) x where "select_note (note_tbl st) (ns_id c) u = Some x"
      "\<not> tz_aware (ns_updated_at c)" "n_updated_at x < instant (ns_updated_at c)"
      "update_storable e st c"
      "st' = st\<lparr>note_tbl := fmupd (ns_id c)
                     ((overwrite_note e x c)\<lparr>n_audio_path := stored_audio_path e (files st) c\<rparr>)
                     (note_tbl st),
                 files := fst (after_media e (files st) c (overwrite_note e x c))\<rparr>"
      "q = (if \<not> ns_is_deleted c \<and> (ns_content c \<noteq> [] \<or> ns_title c \<noteq> [])
            then [ns_id c] else [])"
  | (create) "select_note (note_tbl st) (ns_id c) u = None" "\<not> ns_is_deleted c"
      "create_storable st c"
      "st' = st\<lparr>note_tbl := fmupd (ns_id c) (new_note e u c) (note_tbl st)\<rparr>"
      "q = (if ns_content c \<noteq> [] \<or> ns_title c \<noteq> [] then [ns_id c] else [])"
proof (cases "select_note (note_tbl st) (ns_id c) u")
  case None
  show ?thesis
  proof (cases "ns_is_deleted c")
    case True
    with None assms have "st' = st" "q = []" by (simp_all add: sync_note_step_absent)
    moreover from None True have "note_settled (note_tbl st) u c"
      by (simp add: note_settled_def)
    ultimately show ?thesis by (rule skip)
  next
    case False
    with None assms have cr: "create_note e u c st = Inr (st', q)"
      by (simp add: sync_note_step_absent)
    then have ok: "create_storable st c"
      by (simp add: create_note_eq split: if_splits)
    with cr have "st' = st\<lparr>note_tbl := fmupd (ns_id c) (new_note e u c) (note_tbl st)\<rparr>"
      "q = (if ns_content c \<noteq> [] \<or> ns_title c \<noteq> [] then [ns_id c] else [])"
      by (simp_all add: create_note_eq)
    with None False ok show ?thesis by (rule create)
  qed
next
  case (Some x)
  show ?thesis
  proof (cases "ns_updated_at c")
    case (Aware t)
    with Some assms show ?thesis by (simp add: sync_note_step_existing)
  next
    case (Naive t)
    show ?thesis
    proof (cases "n_updated_at x < t")
      case False
      with Some Naive assms have "st' = st" "q = []" by (simp_all add: sync_note_step_existing)
      moreover from Some Naive False have "note_settled (note_tbl st) u c"
        by (simp add: note_settled_def)
      ultimately show ?thesis by (rule skip)
    next
      case True
      note eq = sync_note_step_update [OF Some Naive True, of e]
      from assms eq have ok: "update_storable e st c" by (simp split: if_splits)
      with assms eq have "st' = st\<lparr>note_tbl := fmupd (ns_id c)
                     ((overwrite_note e x c)\<lparr>n_audio_path := stored_audio_path e (files st) c\<rparr>)
                     (note_tbl st),
                 files := fst (after_media e (files st) c (overwrite_note e x c))\<rparr>"
        "q = (if \<not> ns_is_deleted c \<and> (ns_content c \<noteq> [] \<or> ns_title c \<noteq> [])
            then [ns_id c] else [])"
        by simp_all
      with Some Naive True ok show ?thesis by (intro update [of x]) simp_all
    qed
  qed
qed


lemma add_folder_eq:
  "add_folder st c (new_folder e u c)
     = (if folder_create_storable st c
        then Inr (fmupd (fs_id c) (new_folder e u c) (folder_tbl st))
        else if \<not> tz_aware (fs_updated_at c) \<and> varchar 36 (fs_id c) \<and> folder_storable c
        then Inl IntegrityError else Inl DBAPIError)"
  by (auto simp: add_folder_def folder_values_fit_def folder_storable_def
      folder_create_storable_def new_folder_def)


lemma sync_folder_step_absent:
  assumes "select_folder (folder_tbl st) (fs_id c) u = None"
  shows "sync_folder_step e u c st =
     (if fs_is_deleted c then Inr st
      else if folder_create_storable st c
      then Inr (st\<lparr>folder_tbl := fmupd (fs_id c) (new_folder e u c) (folder_tbl st)\<rparr>)
      else if \<not> tz_aware (fs_updated_at c) \<and> varchar 36 (fs_id c) \<and> folder_storable c
      then Inl IntegrityError else Inl DBAPIError)"
  using assms by (simp add: sync_folder_step_def add_folder_eq)


section \<open>Conflict resolution of one entry\<close>




text \<open>
  C4: a client entry whose id has no record of the owner at the time it is processed and
  whose \<open>is_deleted\<close> is true is a no-op: the step returns the store it was given (no row
  is created, no row changes, no file is touched) and queues nothing, for notes and for
  folders.
\<close>

theorem C4_unknown_tombstone_is_noop:
  "(select_note (note_tbl st) (ns_id c) u = None \<and> ns_is_deleted c
      \<longrightarrow> sync_note_step e u c st = Inr (st, []))
   \<and> (select_folder (folder_tbl st) (fs_id cf) u = None \<and> fs_is_deleted cf
      \<longrightarrow> sync_folder_step e u cf st = Inr st)"
  by (simp add: sync_note_step_absent sync_folder_step_absent)

theorem C4_witness:
  "select_note (note_tbl ex_store) (ns_id ex_tombstone_item) ''u'' = None
   \<and> ns_is_deleted ex_tombstone_item
   \<and> sync_note_step ex_env ''u'' ex_tombstone_item ex_store = Inr (ex_store, [])
   \<and> select_folder (folder_tbl ex_store) (fs_id ex_tombstone_folder_item) ''u'' = None
   \<and> fs_is_deleted ex_tombstone_folder_item
   \<and> sync_folder_step ex_env ''u'' ex_tombstone_folder_item ex_store = Inr ex_store"
proof -
  have h1: "select_note (note_tbl ex_store) (ns_id ex_tombstone_item) ''u'' = None"
    by (simp add: select_note_def ex_store_def ex_tombstone_item_def)
  have h2: "ns_is_deleted ex_tombstone_item"
    by (simp add: ex_tombstone_item_def)
  have h3: "select_folder (folder_tbl ex_store) (fs_id ex_tombstone_folder_item) ''u'' = None"
    by (simp add: select_folder_def ex_store_def ex_tombstone_folder_item_def)
  have h4: "fs_is_deleted ex_tombstone_folder_item"
    by (simp add: ex_tombstone_folder_item_def)
  from C4_unknown_tombstone_is_noop
         [of ex_store ex_tombstone_item "''u''" ex_env ex_tombstone_folder_item]
       h1 h2 h3 h4
  show ?thesis by simp
qed




lemmas storable_defs = update_storable_def create_storable_def folder_storable_def
  folder_create_storable_def varchar_def varchar_opt_def folder_exists_def stored_audio_path_def

lemma fmran_single [simp]: "fmran (fmupd k v fmempty) = {|v|}"
  by (auto simp: fmlookup_ran_iff split: if_splits)

lemma ffilter_finsert [simp]:
  "ffilter P (finsert x A) = (if P x then finsert x (ffilter P A) else ffilter P A)"
  by auto

lemma ffilter_fempty [simp]: "ffilter P {||} = {||}"
  by auto

section \<open>The returned delta\<close>

lemma sync_notes_success:
  assumes "sync_notes e u cs cp bg st = (st', Inr (d, t))"
  shows "\<exists>idx. process_notes e u cs st [] = (st', Inr idx)
           \<and> \<not> checkpoint_aware cp
           \<and> d = server_notes (note_tbl st') u (map_option instant cp)
           \<and> t = index_tasks bg u (note_tbl st') idx"
  using assms by (auto simp: sync_notes_def split: prod.splits sum.splits if_splits)

lemma sync_folders_success:
  assumes "sync_folders e u cs cp st = (st', Inr d)"
  shows "process_folders e u cs st = Inr st' \<and> \<not> checkpoint_aware cp
         \<and> d = server_folders (folder_tbl st') u (map_option instant cp)"
  using assms by (auto simp: sync_folders_def split: sum.splits if_splits)

text \<open>
  C2, as the code has it. The delta of a successful notes pass is exactly the owner's
  stored notes with \<open>updated_at > checkpoint\<close> or a non-null \<open>synced_at > checkpoint\<close>; the
  delta of a successful folders pass is exactly the owner's stored folders with
  \<open>updated_at > checkpoint\<close> (a folder has no \<open>synced_at\<close>); without a checkpoint each
  delta is all of the owner's records of its kind. The checkpoint of a successful pass is
  naive.
\<close>

theorem C2_delta_exact:
  "(sync_notes e u client_notes last_sync_at bg st = (st', Inr (delta, tasks)) \<longrightarrow>
      \<not> checkpoint_aware last_sync_at
      \<and> (\<forall>n. n |\<in>| delta \<longleftrightarrow>
           (\<exists>i. fmlookup (note_tbl st') i = Some n) \<and> n_user_id n = u
           \<and> (case map_option instant last_sync_at of
                None \<Rightarrow> True
              | Some t \<Rightarrow> t < n_updated_at n \<or> (\<exists>s. n_synced_at n = Some s \<and> t < s))))
   \<and> (sync_folders e u client_folders last_sync_at st = (st'', Inr fdelta) \<longrightarrow>
      \<not> checkpoint_aware last_sync_at
      \<and> (\<forall>f. f |\<in>| fdelta \<longleftrightarrow>
           (\<exists>i. fmlookup (folder_tbl st'') i = Some f) \<and> f_user_id f = u
           \<and> (case map_option instant last_sync_at of
                None \<Rightarrow> True | Some t \<Rightarrow> t < f_updated_at f)))"
proof (intro conjI impI allI)
  assume "sync_notes e u client_notes last_sync_at bg st = (st', Inr (delta, tasks))"
  then show "\<not> checkpoint_aware last_sync_at"
    using sync_notes_success by blast
next
  fix n
  assume "sync_notes e u client_notes last_sync_at bg st = (st', Inr (delta, tasks))"
  then have "delta = server_notes (note_tbl st') u (map_option instant last_sync_at)"
    using sync_notes_success by blast
  then show "n |\<in>| delta \<longleftrightarrow>
           (\<exists>i. fmlookup (note_tbl st') i = Some n) \<and> n_user_id n = u
           \<and> (case map_option instant last_sync_at of
                None \<Rightarrow> True
              | Some t \<Rightarrow> t < n_updated_at n \<or> (\<exists>s. n_synced_at n = Some s \<and> t < s))"
    by (auto simp: server_notes_def note_changed_since_def fmlookup_ran_iff split: option.splits)
next
  assume "sync_folders e u client_folders last_sync_at st = (st'', Inr fdelta)"
  then show "\<not> checkpoint_aware last_sync_at"
    using sync_folders_success by blast
next
  fix f
  assume "sync_folders e u client_folders last_sync_at st = (st'', Inr fdelta)"
  then have "fdelta = server_folders (folder_tbl st'') u (map_option instant last_sync_at)"
    using sync_folders_success by blast
  then show "f |\<in>| fdelta \<longleftrightarrow>
           (\<exists>i. fmlookup (folder_tbl st'') i = Some f) \<and> f_user_id f = u
           \<and> (case map_option instant last_sync_at of
                None \<Rightarrow> True | Some t \<Rightarrow> t < f_updated_at f)"
    by (auto simp: server_folders_def folder_changed_since_def fmlookup_ran_iff split: option.splits)
qed

theorem C2_witness:
  "sync_notes ex_env ''u'' [ex_new_note_item] (Some (Naive 10)) True empty_store =
     (empty_store\<lparr>note_tbl := fmupd ''n9'' (new_note ex_env ''u'' ex_new_note_item) fmempty\<rparr>,
      Inr ({|new_note ex_env ''u'' ex_new_note_item|}, []))
   \<and> sync_folders ex_env ''u'' [ex_new_folder_item] (Some (Naive 10)) empty_store =
     (empty_store\<lparr>folder_tbl := fmupd ''f9'' (new_folder ex_env ''u'' ex_new_folder_item) fmempty\<rparr>,
      Inr {||})
   \<and> (\<exists>i. fmlookup (fmupd ''n9'' (new_note ex_env ''u'' ex_new_note_item) fmempty) i
            = Some (new_note ex_env ''u'' ex_new_note_item))
   \<and> (10 < n_updated_at (new_note ex_env ''u'' ex_new_note_item)
       \<or> (\<exists>s. n_synced_at (new_note ex_env ''u'' ex_new_note_item) = Some s \<and> 10 < s))
   \<and> \<not> 10 < f_updated_at (new_folder ex_env ''u'' ex_new_folder_item)"
proof -
  let ?N = "new_note ex_env ''u'' ex_new_note_item"
  let ?F = "new_folder ex_env ''u'' ex_new_folder_item"
  let ?st' = "empty_store\<lparr>note_tbl := fmupd ''n9'' ?N fmempty\<rparr>"
  let ?st'' = "empty_store\<lparr>folder_tbl := fmupd ''f9'' ?F fmempty\<rparr>"
  have h1: "sync_notes ex_env ''u'' [ex_new_note_item] (Some (Naive 10)) True empty_store
              = (?st', Inr ({|?N|}, []))"
    by (simp add: sync_notes_def sync_note_step_absent create_note_eq storable_defs
      checkpoint_aware_def select_note_def empty_store_def
      server_notes_def note_changed_since_def index_tasks_def index_task_of_def
      new_note_def ex_new_note_item_def ex_env_def)
  have h2: "sync_folders ex_env ''u'' [ex_new_folder_item] (Some (Naive 10)) empty_store
              = (?st'', Inr {||})"
    by (simp add: sync_folders_def sync_folder_step_absent storable_defs
      checkpoint_aware_def select_folder_def empty_store_def
      server_folders_def folder_changed_since_def
      new_folder_def ex_new_folder_item_def ex_env_def)
  note inst = C2_delta_exact [of ex_env "''u''" "[ex_new_note_item]" "Some (Naive 10)" True
      empty_store ?st' "{|?N|}" "[]" "[ex_new_folder_item]" ?st'' "{||}"]
  from inst [THEN conjunct1, rule_format, OF h1, THEN conjunct2, rule_format, of ?N]
  have a: "(\<exists>i. fmlookup (fmupd ''n9'' ?N fmempty) i = Some ?N)
       \<and> (10 < n_updated_at ?N \<or> (\<exists>s. n_synced_at ?N = Some s \<and> 10 < s))"
    by simp
  from inst [THEN conjunct2, rule_format, OF h2, THEN conjunct2, rule_format, of ?F]
  have b: "\<not> 10 < f_updated_at ?F"
    by (auto simp: new_folder_def split: if_splits)
  from h1 h2 a b show ?thesis by blast
qed

text \<open>
  C2 as stated fails for folders. The same creation, older than the checkpoint 10 and
  accepted by the server at time 20, is returned by the notes pass (its \<open>synced_at\<close> is
  past the checkpoint) and is not returned by the folders pass, which compares
  \<open>updated_at\<close> only.
\<close>

theorem C2_counterexample:
  "sync_notes ex_env ''u'' [ex_new_note_item] (Some (Naive 10)) True empty_store =
     (empty_store\<lparr>note_tbl := fmupd ''n9'' (new_note ex_env ''u'' ex_new_note_item) fmempty\<rparr>,
      Inr ({|new_note ex_env ''u'' ex_new_note_item|}, []))
   \<and> n_updated_at (new_note ex_env ''u'' ex_new_note_item) = 5
   \<and> n_synced_at (new_note ex_env ''u'' ex_new_note_item) = Some 20
   \<and> sync_folders ex_env ''u'' [ex_new_folder_item] (Some (Naive 10)) empty_store =
     (empty_store\<lparr>folder_tbl := fmupd ''f9'' (new_folder ex_env ''u'' ex_new_folder_item) fmempty\<rparr>,
      Inr {||})
   \<and> f_updated_at (new_folder ex_env ''u'' ex_new_folder_item) = 5"
  by (simp add: sync_notes_def sync_folders_def sync_note_step_absent sync_folder_step_absent
      create_note_eq storable_defs checkpoint_aware_def
      select_note_def select_folder_def empty_store_def server_notes_def server_folders_def
      note_changed_since_def folder_changed_since_def index_tasks_def index_task_of_def
      new_note_def new_folder_def ex_new_note_item_def ex_new_folder_item_def ex_env_def)

section \<open>Deleting a folder\<close>


lemma uncategorize_fields [simp]:
  "n_user_id (uncategorize ft F u n) = n_user_id n"
  "n_is_deleted (uncategorize ft F u n) = n_is_deleted n"
  "n_folder_id (uncategorize ft F u n)
     = (if n_folder_id n = Some F \<and> n_user_id n = u then None else n_folder_id n)"
  by (simp_all add: uncategorize_def)

lemma detach_fields [simp]:
  "n_user_id (detach ft F n) = n_user_id n"
  "n_is_deleted (detach ft F n) = n_is_deleted n"
  "n_folder_id (detach ft F n) = (if n_folder_id n = Some F then None else n_folder_id n)"
  by (simp_all add: detach_def)







section \<open>Malformed entries\<close>

lemma validate_items_error:
  assumes "r \<in> set rs" and "v r = Inl RequestValidationError"
    and "\<And>x err. v x = Inl err \<Longrightarrow> err = RequestValidationError"
  shows "validate_items v rs = Inl RequestValidationError"
  using assms(1,2)
proof (induction rs)
  case Nil
  then show ?case by simp
next
  case (Cons a rs)
  then show ?case
    using assms(3) by (auto split: sum.splits)
qed

lemma validate_note_item_error: "validate_note_item x = Inl err \<Longrightarrow> err = RequestValidationError"
  by (auto simp: validate_note_item_def split: option.splits)

lemma validate_folder_item_error:
  "validate_folder_item x = Inl err \<Longrightarrow> err = RequestValidationError"
  by (auto simp: validate_folder_item_def split: option.splits)

lemma validate_items_note_error:
  "validate_items validate_note_item rs = Inl err \<Longrightarrow> err = RequestValidationError"
  by (induction rs arbitrary: err) (auto split: sum.splits dest: validate_note_item_error)

text \<open>
  C6, as the code has it. A body in which some note entry lacks \<open>id\<close>, \<open>date\<close> or
  \<open>updated_at\<close>, or some folder entry lacks \<open>id\<close>, \<open>name\<close> or \<open>updated_at\<close>, is rejected as
  a whole before the handler runs: the call answers with the validation error, no entry
  of the body is processed, and the store is the one the call started from.
\<close>

theorem C6_malformed_entry_rejects_request:
  "(\<exists>r \<in> set (raw_notes body). rn_id r = None \<or> rn_date r = None \<or> rn_updated_at r = None)
   \<or> (\<exists>r \<in> set (raw_folders body). rf_id r = None \<or> rf_name r = None \<or> rf_updated_at r = None)
   \<Longrightarrow> post_sync e_notes e_folders ts u body st = (st, Inl RequestValidationError)"
proof (erule disjE)
  assume "\<exists>r \<in> set (raw_notes body). rn_id r = None \<or> rn_date r = None \<or> rn_updated_at r = None"
  then obtain r where r: "r \<in> set (raw_notes body)"
    and "rn_id r = None \<or> rn_date r = None \<or> rn_updated_at r = None" by blast
  then have "validate_note_item r = Inl RequestValidationError"
    by (auto simp: validate_note_item_def split: option.splits)
  with r have "validate_items validate_note_item (raw_notes body) = Inl RequestValidationError"
    by (rule validate_items_error) (rule validate_note_item_error)
  then show ?thesis
    by (simp add: post_sync_def validate_sync_request_def)
next
  assume "\<exists>r \<in> set (raw_folders body). rf_id r = None \<or> rf_name r = None \<or> rf_updated_at r = None"
  then obtain r where r: "r \<in> set (raw_folders body)"
    and "rf_id r = None \<or> rf_name r = None \<or> rf_updated_at r = None" by blast
  then have "validate_folder_item r = Inl RequestValidationError"
    by (auto simp: validate_folder_item_def split: option.splits)
  with r have "validate_items validate_folder_item (raw_folders body) = Inl RequestValidationError"
    by (rule validate_items_error) (rule validate_folder_item_error)
  then show ?thesis
    by (auto simp: post_sync_def validate_sync_request_def split: sum.splits
        dest: validate_items_note_error)
qed

theorem C6_witness:
  "ex_bad_raw_note \<in> set [ex_good_raw_note, ex_bad_raw_note]
   \<and> rn_updated_at ex_bad_raw_note = None
   \<and> post_sync ex_env ex_env 22 ''u''
        \<lparr>raw_notes = [ex_good_raw_note, ex_bad_raw_note], raw_folders = [],
          raw_last_sync_at = None\<rparr> empty_store
      = (empty_store, Inl RequestValidationError)"
proof -
  have h: "\<exists>r \<in> set (raw_notes \<lparr>raw_notes = [ex_good_raw_note, ex_bad_raw_note],
              raw_folders = [], raw_last_sync_at = None\<rparr>).
             rn_id r = None \<or> rn_date r = None \<or> rn_updated_at r = None"
    by (simp add: ex_bad_raw_note_def)
  from C6_malformed_entry_rejects_request [OF disjI1, OF h, of ex_env ex_env 22 "''u''" empty_store]
  show ?thesis by (simp add: ex_bad_raw_note_def)
qed

text \<open>
  C6 as stated fails: the well-formed first entry is not processed when the second entry
  lacks \<open>updated_at\<close>, although the same entry sent alone creates its note.
\<close>

theorem C6_counterexample:
  "validate_note_item ex_good_raw_note = Inr ex_new_note_item
   \<and> validate_note_item ex_bad_raw_note = Inl RequestValidationError
   \<and> post_sync ex_env ex_env 22 ''u''
        \<lparr>raw_notes = [ex_good_raw_note, ex_bad_raw_note], raw_folders = [],
          raw_last_sync_at = None\<rparr> empty_store
      = (empty_store, Inl RequestValidationError)
   \<and> fst (post_sync ex_env ex_env 22 ''u''
        \<lparr>raw_notes = [ex_good_raw_note], raw_folders = [],
          raw_last_sync_at = None\<rparr> empty_store)
      = empty_store\<lparr>note_tbl := fmupd ''n9'' (new_note ex_env ''u'' ex_new_note_item) fmempty\<rparr>"
  by (simp add: post_sync_def validate_sync_request_def validate_note_item_def
      ex_good_raw_note_def ex_bad_raw_note_def ex_new_note_item_def sync_data_def
      sync_notes_def sync_folders_def sync_note_step_absent create_note_eq storable_defs
      checkpoint_aware_def select_note_def empty_store_def
      new_note_def ex_env_def)

section \<open>What one entry leaves alone\<close>

lemma overwrite_note_fields [simp]:
  "n_user_id (overwrite_note e x c) = n_user_id x"
  "n_id (overwrite_note e x c) = n_id x"
  "n_updated_at (overwrite_note e x c) = instant (ns_updated_at c)"
  "n_content (overwrite_note e x c) = ns_content c"
  "n_title (overwrite_note e x c) = ns_title c"
  "n_is_deleted (overwrite_note e x c) = ns_is_deleted c"
  by (simp_all add: overwrite_note_def)

lemma new_note_fields [simp]:
  "n_user_id (new_note e u c) = u"
  "n_id (new_note e u c) = ns_id c"
  "n_updated_at (new_note e u c) = instant (ns_updated_at c)"
  "n_content (new_note e u c) = ns_content c"
  "n_title (new_note e u c) = ns_title c"
  "n_is_deleted (new_note e u c) = ns_is_deleted c"
  by (simp_all add: new_note_def)

lemma select_note_Some_iff:
  "select_note tbl i u = Some n \<longleftrightarrow> fmlookup tbl i = Some n \<and> n_user_id n = u"
  by (auto simp: select_note_def split: option.splits)

lemma select_note_None_iff:
  "select_note tbl i u = None \<longleftrightarrow> (\<forall>n. fmlookup tbl i = Some n \<longrightarrow> n_user_id n \<noteq> u)"
  by (auto simp: select_note_def split: option.splits)

lemma sync_note_step_other_id:
  assumes "sync_note_step e u c st = Inr (st', q)" and "i \<noteq> ns_id c"
  shows "fmlookup (note_tbl st') i = fmlookup (note_tbl st) i"
  using assms by (cases rule: sync_note_step_InrE) simp_all







lemma select_folder_None_iff:
  "select_folder tbl i u = None \<longleftrightarrow> (\<forall>f. fmlookup tbl i = Some f \<longrightarrow> f_user_id f \<noteq> u)"
  by (auto simp: select_folder_def split: option.splits)

lemma overwrite_folder_fields [simp]:
  "f_user_id (overwrite_folder x c) = f_user_id x"
  "f_id (overwrite_folder x c) = f_id x"
  "f_updated_at (overwrite_folder x c) = instant (fs_updated_at c)"
  by (simp_all add: overwrite_folder_def)

lemma new_folder_fields [simp]:
  "f_user_id (new_folder e u c) = u"
  "f_id (new_folder e u c) = fs_id c"
  "f_updated_at (new_folder e u c) = instant (fs_updated_at c)"
  by (simp_all add: new_folder_def)



section \<open>What a pass leaves alone\<close>

lemma process_notes_Cons_Inr:
  assumes "process_notes e u (c # cs) st idx = (st', Inr r)"
  obtains t q where "sync_note_step e u c st = Inr (t, q)"
    and "process_notes e u cs t (idx @ q) = (st', Inr r)"
  using assms by (auto split: sum.splits prod.splits)







section \<open>Owner scoping\<close>

lemma lookup_owner_notes [simp]: "fmlookup (owner_notes u tbl) i = select_note tbl i u"
  by (auto simp: owner_notes_def select_note_def split: option.splits)


lemma lookup_owner_folders [simp]: "fmlookup (owner_folders u tbl) i = select_folder tbl i u"
  by (auto simp: owner_folders_def select_folder_def split: option.splits)
























section \<open>Running a pass twice\<close>



lemma sync_note_step_select_other:
  assumes "sync_note_step e u c st = Inr (st', q)" and "i \<noteq> ns_id c"
  shows "select_note (note_tbl st') i v = select_note (note_tbl st) i v"
  using sync_note_step_other_id [OF assms] by (simp add: select_note_def)











lemma same_versions_refl [simp]: "same_versions t t"
  by (simp add: same_versions_def option.rel_refl)














lemma same_folder_versions_refl [simp]: "same_folder_versions t t"
  by (simp add: same_folder_versions_def option.rel_refl)








section \<open>The indexing queue\<close>

lemma note_settled_not_accepted: "note_settled tbl u c \<Longrightarrow> \<not> note_accepted tbl u c"
  by (simp add: note_accepted_def note_settled_def split: option.splits)

lemma sync_note_step_queue:
  assumes "sync_note_step e u c st = Inr (st', q)"
  shows "q = (if note_accepted (note_tbl st) u c \<and> \<not> ns_is_deleted c
                   \<and> (ns_content c \<noteq> [] \<or> ns_title c \<noteq> [])
              then [ns_id c] else [])"
  using assms
proof (cases rule: sync_note_step_InrE)
  case skip
  then show ?thesis by (simp add: note_settled_not_accepted)
next
  case (update x)
  then show ?thesis by (simp add: note_accepted_def)
next
  case create
  then show ?thesis by (simp add: note_accepted_def)
qed

lemma sync_note_step_accepted_other:
  assumes "sync_note_step e u c st = Inr (st', q)" and "ns_id d \<noteq> ns_id c"
  shows "note_accepted (note_tbl st') u d \<longleftrightarrow> note_accepted (note_tbl st) u d"
  using sync_note_step_select_other [OF assms(1), of "ns_id d" u] assms(2)
  by (simp add: note_accepted_def)

lemma process_notes_queue:
  assumes "process_notes e u cs st idx = (st', Inr r)" and "distinct (map ns_id cs)"
  shows "r = idx @ map ns_id (filter (\<lambda>c. note_accepted (note_tbl st) u c \<and> \<not> ns_is_deleted c
                                        \<and> (ns_content c \<noteq> [] \<or> ns_title c \<noteq> [])) cs)"
  using assms
proof (induction cs arbitrary: st idx)
  case Nil
  then show ?case by simp
next
  case (Cons c cs)
  from Cons.prems(1) obtain t q where a: "sync_note_step e u c st = Inr (t, q)"
    and b: "process_notes e u cs t (idx @ q) = (st', Inr r)"
    by (rule process_notes_Cons_Inr)
  from Cons.prems(2) have fresh0: "ns_id c \<notin> ns_id ` set cs" and dist: "distinct (map ns_id cs)"
    by simp_all
  from fresh0 have fresh: "\<forall>d \<in> set cs. ns_id d \<noteq> ns_id c"
    by (metis imageI)
  have same: "filter (\<lambda>c. note_accepted (note_tbl t) u c \<and> \<not> ns_is_deleted c
                          \<and> (ns_content c \<noteq> [] \<or> ns_title c \<noteq> [])) cs
            = filter (\<lambda>c. note_accepted (note_tbl st) u c \<and> \<not> ns_is_deleted c
                          \<and> (ns_content c \<noteq> [] \<or> ns_title c \<noteq> [])) cs"
    using fresh sync_note_step_accepted_other [OF a] by (intro filter_cong) auto
  from Cons.IH [OF b dist] same sync_note_step_queue [OF a]
  show ?case by simp
qed

lemma process_notes_other_id:
  assumes "process_notes e u ds st idx = (st', Inr r)" and "i \<notin> ns_id ` set ds"
  shows "fmlookup (note_tbl st') i = fmlookup (note_tbl st) i"
  using assms
proof (induction ds arbitrary: st idx)
  case Nil
  then show ?case by simp
next
  case (Cons d ds)
  from Cons.prems(1) obtain t q where a: "sync_note_step e u d st = Inr (t, q)"
    and b: "process_notes e u ds t (idx @ q) = (st', Inr r)"
    by (rule process_notes_Cons_Inr)
  from Cons.prems(2) have ne: "i \<noteq> ns_id d" and rest: "i \<notin> ns_id ` set ds" by auto
  from Cons.IH [OF b rest] sync_note_step_other_id [OF a ne] show ?case by simp
qed

lemma sync_note_step_keyed:
  assumes "sync_note_step e u c st = Inr (st', q)" and "keyed_by_id (note_tbl st)"
  shows "keyed_by_id (note_tbl st')"
  using assms(1)
proof (cases rule: sync_note_step_InrE)
  case skip
  with assms(2) show ?thesis by simp
next
  case (update x)
  from update(1) have "fmlookup (note_tbl st) (ns_id c) = Some x"
    by (simp add: select_note_Some_iff)
  with assms(2) have "n_id x = ns_id c" by (simp add: keyed_by_id_def)
  with update(5) assms(2) show ?thesis by (auto simp: keyed_by_id_def)
next
  case create
  with assms(2) show ?thesis by (auto simp: keyed_by_id_def)
qed

lemma process_notes_keyed:
  assumes "process_notes e u cs st idx = (st', Inr r)" and "keyed_by_id (note_tbl st)"
  shows "keyed_by_id (note_tbl st')"
  using assms
proof (induction cs arbitrary: st idx)
  case Nil
  then show ?case by simp
next
  case (Cons d ds)
  from Cons.prems(1) obtain t q where a: "sync_note_step e u d st = Inr (t, q)"
    and b: "process_notes e u ds t (idx @ q) = (st', Inr r)"
    by (rule process_notes_Cons_Inr)
  from Cons.IH [OF b sync_note_step_keyed [OF a Cons.prems(2)]] show ?case .
qed

lemma sync_note_step_accepted_row:
  assumes "sync_note_step e u c st = Inr (st', q)" and "note_accepted (note_tbl st) u c"
  shows "\<exists>n. fmlookup (note_tbl st') (ns_id c) = Some n \<and> n_content n = ns_content c
              \<and> n_title n = ns_title c \<and> n_is_deleted n = ns_is_deleted c"
  using assms(1)
proof (cases rule: sync_note_step_InrE)
  case skip
  with assms(2) show ?thesis by (simp add: note_settled_not_accepted)
next
  case (update x)
  then show ?thesis by simp
next
  case create
  then show ?thesis by simp
qed

lemma process_notes_accepted_row:
  assumes "process_notes e u cs st idx = (st', Inr r)" and "distinct (map ns_id cs)"
    and "c \<in> set cs" and "note_accepted (note_tbl st) u c"
  shows "\<exists>n. fmlookup (note_tbl st') (ns_id c) = Some n \<and> n_content n = ns_content c
              \<and> n_title n = ns_title c \<and> n_is_deleted n = ns_is_deleted c"
  using assms
proof (induction cs arbitrary: st idx)
  case Nil
  then show ?case by simp
next
  case (Cons d ds)
  from Cons.prems(1) obtain t q where a: "sync_note_step e u d st = Inr (t, q)"
    and b: "process_notes e u ds t (idx @ q) = (st', Inr r)"
    by (rule process_notes_Cons_Inr)
  from Cons.prems(2) have fresh: "ns_id d \<notin> ns_id ` set ds" and dist: "distinct (map ns_id ds)"
    by simp_all
  show ?case
  proof (cases "c = d")
    case True
    from process_notes_other_id [OF b fresh]
      sync_note_step_accepted_row [OF a Cons.prems(4) [unfolded True]] True
    show ?thesis by simp
  next
    case False
    with Cons.prems(3) have in_ds: "c \<in> set ds" by simp
    with fresh have "ns_id c \<noteq> ns_id d" by (metis imageI)
    with sync_note_step_accepted_other [OF a] Cons.prems(4)
    have "note_accepted (note_tbl t) u c" by simp
    from Cons.IH [OF b dist in_ds this] show ?thesis .
  qed
qed

lemma index_task_of_mem:
  "t \<in> set (index_task_of u tbl r) \<longleftrightarrow>
     (\<exists>n. fmlookup tbl r = Some n \<and> n_content n \<noteq> []
          \<and> t = \<lparr>t_note_id = n_id n, t_text = n_content n, t_user_id = u,
                  t_title = (if n_title n \<noteq> [] then n_title n else ''Untitled'')\<rparr>)"
  by (cases "fmlookup tbl r") (auto simp: index_task_of_def)

lemma index_tasks_mem:
  "t \<in> set (index_tasks True u tbl refs) \<longleftrightarrow> (\<exists>r \<in> set refs. t \<in> set (index_task_of u tbl r))"
  by (cases refs) (simp_all add: index_tasks_def)

lemma sync_notes_tasks:
  assumes dist: "distinct (map ns_id cs)"
    and keyed: "keyed_by_id (note_tbl st)"
    and run: "sync_notes e u cs cp True st = (st', Inr (d, tasks))"
    and c: "c \<in> set cs"
  shows "((\<exists>t \<in> set tasks. t_note_id t = ns_id c) \<longleftrightarrow>
            note_accepted (note_tbl st) u c \<and> \<not> ns_is_deleted c \<and> ns_content c \<noteq> [])
         \<and> (\<forall>t \<in> set tasks. t_note_id t = ns_id c \<longrightarrow>
               t_text t = ns_content c \<and> t_user_id t = u
               \<and> t_title t = (if ns_title c \<noteq> [] then ns_title c else ''Untitled''))"
proof -
  let ?P = "\<lambda>c. note_accepted (note_tbl st) u c \<and> \<not> ns_is_deleted c
                 \<and> (ns_content c \<noteq> [] \<or> ns_title c \<noteq> [])"
  from sync_notes_success [OF run]
  obtain idx where pr: "process_notes e u cs st [] = (st', Inr idx)"
    and tasks: "tasks = index_tasks True u (note_tbl st') idx"
    by blast
  from process_notes_queue [OF pr dist] have idx: "idx = map ns_id (filter ?P cs)" by simp
  from process_notes_keyed [OF pr keyed] have keyed': "keyed_by_id (note_tbl st')" .
  from dist have "inj_on ns_id (set cs)" by (simp add: distinct_map)
  then have inj: "\<And>x. x \<in> set cs \<Longrightarrow> ns_id x = ns_id c \<Longrightarrow> x = c"
    using c by (simp add: inj_on_def)
  have task_of_c: "note_accepted (note_tbl st) u c \<and> \<not> ns_is_deleted c
      \<and> t_text t = ns_content c \<and> t_user_id t = u \<and> ns_content c \<noteq> []
      \<and> t_title t = (if ns_title c \<noteq> [] then ns_title c else ''Untitled'')"
    if t: "t \<in> set tasks" and tc: "t_note_id t = ns_id c" for t
  proof -
    from t have "t \<in> set (index_tasks True u (note_tbl st') idx)" by (simp add: tasks)
    then have "\<exists>r \<in> set idx. t \<in> set (index_task_of u (note_tbl st') r)"
      by (simp only: index_tasks_mem)
    then obtain r where r: "r \<in> set idx"
      and tr: "t \<in> set (index_task_of u (note_tbl st') r)"
      by blast
    from tr have "\<exists>n. fmlookup (note_tbl st') r = Some n \<and> n_content n \<noteq> []
          \<and> t = \<lparr>t_note_id = n_id n, t_text = n_content n, t_user_id = u,
                  t_title = (if n_title n \<noteq> [] then n_title n else ''Untitled'')\<rparr>"
      by (simp only: index_task_of_mem)
    then obtain n where n: "fmlookup (note_tbl st') r = Some n"
      and ne: "n_content n \<noteq> []"
      and teq: "t = \<lparr>t_note_id = n_id n, t_text = n_content n, t_user_id = u,
                  t_title = (if n_title n \<noteq> [] then n_title n else ''Untitled'')\<rparr>"
      by blast
    from keyed' n have "n_id n = r" by (simp add: keyed_by_id_def)
    with teq tc have rc: "r = ns_id c" by simp
    from r have "r \<in> ns_id ` set (filter ?P cs)" unfolding idx by simp
    then obtain x where x: "x \<in> set cs" "?P x" "ns_id x = r" by auto
    from x(3) rc have "ns_id x = ns_id c" by simp
    with x(1) have "x = c" by (rule inj)
    with x have acc: "note_accepted (note_tbl st) u c" and nd: "\<not> ns_is_deleted c" by simp_all
    from process_notes_accepted_row [OF pr dist c acc] n rc
    have "n_content n = ns_content c" "n_title n = ns_title c" by simp_all
    with acc nd ne teq show ?thesis by simp
  qed
  have queued: "\<exists>t \<in> set tasks. t_note_id t = ns_id c"
    if acc: "note_accepted (note_tbl st) u c" and nd: "\<not> ns_is_deleted c"
      and ne: "ns_content c \<noteq> []"
  proof -
    from acc nd ne c have "c \<in> set (filter ?P cs)" by simp
    then have r: "ns_id c \<in> set idx" unfolding idx by simp
    from process_notes_accepted_row [OF pr dist c acc] obtain n
      where n: "fmlookup (note_tbl st') (ns_id c) = Some n" and cn: "n_content n = ns_content c"
      by blast
    from keyed' n have k: "n_id n = ns_id c" by (simp add: keyed_by_id_def)
    let ?t = "\<lparr>t_note_id = n_id n, t_text = n_content n, t_user_id = u,
                  t_title = (if n_title n \<noteq> [] then n_title n else ''Untitled'')\<rparr>"
    from n cn ne have "?t \<in> set (index_task_of u (note_tbl st') (ns_id c))"
      by (simp add: index_task_of_mem)
    with r have "\<exists>r \<in> set idx. ?t \<in> set (index_task_of u (note_tbl st') r)" by blast
    then have "?t \<in> set tasks" by (simp only: tasks index_tasks_mem)
    moreover have "t_note_id ?t = ns_id c" using k by simp
    ultimately show ?thesis by blast
  qed
  have iff: "(\<exists>t \<in> set tasks. t_note_id t = ns_id c) \<longleftrightarrow>
            note_accepted (note_tbl st) u c \<and> \<not> ns_is_deleted c \<and> ns_content c \<noteq> []"
  proof
    assume "\<exists>t \<in> set tasks. t_note_id t = ns_id c"
    then obtain t where "t \<in> set tasks" "t_note_id t = ns_id c" by blast
    from task_of_c [OF this]
    show "note_accepted (note_tbl st) u c \<and> \<not> ns_is_deleted c \<and> ns_content c \<noteq> []"
      by simp
  next
    assume "note_accepted (note_tbl st) u c \<and> \<not> ns_is_deleted c \<and> ns_content c \<noteq> []"
    then show "\<exists>t \<in> set tasks. t_note_id t = ns_id c"
      using queued by simp
  qed
  have all: "\<forall>t \<in> set tasks. t_note_id t = ns_id c \<longrightarrow>
               t_text t = ns_content c \<and> t_user_id t = u
               \<and> t_title t = (if ns_title c \<noteq> [] then ns_title c else ''Untitled'')"
  proof (intro ballI impI)
    fix t
    assume "t \<in> set tasks" "t_note_id t = ns_id c"
    from task_of_c [OF this]
    show "t_text t = ns_content c \<and> t_user_id t = u
               \<and> t_title t = (if ns_title c \<noteq> [] then ns_title c else ''Untitled'')"
      by simp
  qed
  show ?thesis
  proof (rule conjI)
    show "(\<exists>t \<in> set tasks. t_note_id t = ns_id c) \<longleftrightarrow>
            note_accepted (note_tbl st) u c \<and> \<not> ns_is_deleted c \<and> ns_content c \<noteq> []"
      by (rule iff)
    show "\<forall>t \<in> set tasks. t_note_id t = ns_id c \<longrightarrow>
               t_text t = ns_content c \<and> t_user_id t = u
               \<and> t_title t = (if ns_title c \<noteq> [] then ns_title c else ''Untitled'')"
      by (rule all)
  qed
qed

text \<open>
  C7, as the code has it. In a successful pass that was given a task queue, over a batch
  with pairwise distinct ids and a table whose rows are stored under their ids: an indexing
  task for the id of a batch entry is queued if and only if the entry is accepted (it
  creates the record or overwrites an older one), its \<open>is_deleted\<close> is false and its content
  is non-empty. The task carries the entry's content and its title, or \<open>Untitled\<close> when the
  title is empty. A non-empty title does not make up for an empty content.
\<close>

theorem C7_queued_iff_content:
  "distinct (map ns_id cs) \<and> keyed_by_id (note_tbl st)
   \<and> sync_notes e u cs cp True st = (st', Inr (d, tasks)) \<and> c \<in> set cs \<longrightarrow>
     ((\<exists>t \<in> set tasks. t_note_id t = ns_id c) \<longleftrightarrow>
         note_accepted (note_tbl st) u c \<and> \<not> ns_is_deleted c \<and> ns_content c \<noteq> [])
     \<and> (\<forall>t \<in> set tasks. t_note_id t = ns_id c \<longrightarrow>
           t_text t = ns_content c \<and> t_user_id t = u
           \<and> t_title t = (if ns_title c \<noteq> [] then ns_title c else ''Untitled''))"
  using sync_notes_tasks [of cs st e u cp st' d tasks c] by blast

theorem C7_witness:
  "distinct (map ns_id [ex_new_note_item, ex_content_item])
   \<and> keyed_by_id (note_tbl empty_store)
   \<and> \<not> isl (snd (sync_notes ex_env ''u'' [ex_new_note_item, ex_content_item] None True
                    empty_store))
   \<and> note_accepted (note_tbl empty_store) ''u'' ex_content_item
   \<and> \<not> ns_is_deleted ex_content_item \<and> ns_content ex_content_item \<noteq> []
   \<and> (\<exists>t \<in> set (snd (projr (snd (sync_notes ex_env ''u'' [ex_new_note_item, ex_content_item]
                                      None True empty_store)))).
         t_note_id t = ns_id ex_content_item)"
proof -
  let ?run = "sync_notes ex_env ''u'' [ex_new_note_item, ex_content_item] None True empty_store"
  have h0: "distinct (map ns_id [ex_new_note_item, ex_content_item])"
    by (simp add: ex_new_note_item_def ex_content_item_def)
  have h1: "keyed_by_id (note_tbl empty_store)"
    by (simp add: keyed_by_id_def empty_store_def)
  have ok: "\<not> isl (snd ?run)"
    by (simp add: sync_notes_def sync_note_step_absent create_note_eq storable_defs
        checkpoint_aware_def select_note_def empty_store_def
        ex_new_note_item_def ex_content_item_def)
  then have h2: "?run = (fst ?run, Inr (fst (projr (snd ?run)), snd (projr (snd ?run))))"
    by (cases ?run) (auto simp: isl_def)
  have h3: "ex_content_item \<in> set [ex_new_note_item, ex_content_item]" by simp
  have a: "note_accepted (note_tbl empty_store) ''u'' ex_content_item
           \<and> \<not> ns_is_deleted ex_content_item \<and> ns_content ex_content_item \<noteq> []"
    by (simp add: note_accepted_def select_note_def empty_store_def ex_content_item_def)
  from C7_queued_iff_content [rule_format, OF conjI [OF h0 conjI [OF h1 conjI [OF h2 h3]]]] a
  have "\<exists>t \<in> set (snd (projr (snd ?run))). t_note_id t = ns_id ex_content_item"
    by blast
  with h0 h1 ok a show ?thesis by blast
qed

text \<open>
  C7 as stated fails: a created note with an empty content and the title \<open>Trip\<close> is put
  on \<open>notes_to_index\<close> by the loop, and no task is queued for it.
\<close>

theorem C7_counterexample:
  "ns_title ex_new_note_item = ''Trip'' \<and> ns_content ex_new_note_item = []
   \<and> sync_note_step ex_env ''u'' ex_new_note_item empty_store
       = Inr (empty_store\<lparr>note_tbl := fmupd ''n9'' (new_note ex_env ''u'' ex_new_note_item) fmempty\<rparr>,
              [''n9''])
   \<and> sync_notes ex_env ''u'' [ex_new_note_item] None True empty_store
       = (empty_store\<lparr>note_tbl := fmupd ''n9'' (new_note ex_env ''u'' ex_new_note_item) fmempty\<rparr>,
          Inr ({|new_note ex_env ''u'' ex_new_note_item|}, []))"
  by (simp add: sync_notes_def sync_note_step_absent create_note_eq storable_defs
      checkpoint_aware_def select_note_def empty_store_def
      server_notes_def note_changed_since_def index_tasks_def index_task_of_def
      ex_new_note_item_def)


end
